theory Spec2Isabelle
  imports Main
begin

section \<open>Values, schemas, errors and generators\<close>

text \<open>
  A JavaScript value as the update-input parser sees it.  An object is an association
  list from property keys to values; the symbol \<open>$GET\<close> is a key of its own, distinct
  from every string key.
\<close>

datatype prop_key = StrKey string | GET_symbol

datatype jsval =
    JUndefined
  | JNull
  | JBool bool
  | JNum int
  | JStr string
  | JArr "jsval list"
  | JObj "(prop_key \<times> jsval) list"

text \<open>
  A schema node: a discriminant with its kind-specific children, and the optional
  \<open>savedAs\<close> name.
\<close>

datatype schema = Schema (savedAs: "string option") (shape: shape)
and shape =
    AnyS
  | NullS
  | BooleanS
  | NumberS
  | StringS
  | BinaryS
  | SetS schema
  | ListS schema
  | MapS "(string \<times> schema) list"
  | RecordS schema schema
  | AnyOfS "schema list"

text \<open>
  \<open>new DynamoDBToolboxError(code, { message, path, payload })\<close>; the payload is an
  object, here \<open>{ received: value }\<close>.
\<close>

datatype error = DynamoDBToolboxError
  (code: string) (message: string) (path: "string option") (payload: jsval)

text \<open>An element of an \<open>ArrayPath\<close>: a key or an index.\<close>

datatype path_part = PKey string | PIdx nat

text \<open>
  A generator object, as the sequence of things its successive advancements do.  The
  generators of this code yield at most a few times and have no side effect, so a generator
  is the trace it will produce: \<open>Yields v g\<close> yields \<open>v\<close> and continues as \<open>g\<close>,
  \<open>Returns v\<close> completes with \<open>v\<close>, \<open>Raises e\<close> throws, \<open>Finished\<close> is a generator
  that has completed already.
\<close>

datatype gen = Finished | Raises error | Returns jsval | Yields jsval gen

text \<open>
  \<open>g.next()\<close>: the iterator result \<open>(value, done)\<close> or the error thrown, and the
  generator afterwards.  A completed generator answers \<open>{ value: undefined, done: true }\<close>.
\<close>

fun gen_next :: "gen \<Rightarrow> (error + jsval \<times> bool) \<times> gen" where
  "gen_next Finished = (Inr (JUndefined, True), Finished)"
| "gen_next (Raises e) = (Inl e, Finished)"
| "gen_next (Returns v) = (Inr (v, True), Finished)"
| "gen_next (Yields v g) = (Inr (v, False), g)"

text \<open>Every value a generator hands out (yielded or returned) until it completes or throws.\<close>

fun gen_values :: "gen \<Rightarrow> jsval list" where
  "gen_values Finished = []"
| "gen_values (Raises e) = []"
| "gen_values (Returns v) = [v]"
| "gen_values (Yields v g) = v # gen_values g"

section \<open>The reference extension parser\<close>

text \<open>Property read \<open>o[k]\<close>: \<open>undefined\<close> when the value is no object or has no such key.\<close>

fun get_prop :: "jsval \<Rightarrow> prop_key \<Rightarrow> jsval" where
  "get_prop (JObj ps) k = (case map_of ps k of None \<Rightarrow> JUndefined | Some v \<Rightarrow> v)"
| "get_prop _ k = JUndefined"

text \<open>
  Modelled from the spec: \<open>isGetting\<close> of \<open>update/symbols\<close>, which is not among the
  sources.  It is the type guard for \<open>{ [$GET]: unknown }\<close>: the value is an object that
  has a \<open>$GET\<close> key.
\<close>

fun isGetting :: "jsval \<Rightarrow> bool" where
  "isGetting (JObj ps) = (GET_symbol \<in> fst ` set ps)"
| "isGetting _ = False"

fun isArray :: "jsval \<Rightarrow> bool" where
  "isArray (JArr xs) = True"
| "isArray _ = False"

fun isString :: "jsval \<Rightarrow> bool" where
  "isString (JStr s) = True"
| "isString _ = False"

text \<open>Array element read \<open>a[i]\<close>, as array destructuring does it: \<open>undefined\<close> out of range.\<close>

fun elem :: "jsval \<Rightarrow> nat \<Rightarrow> jsval" where
  "elem (JArr xs) i = (if i < length xs then xs ! i else JUndefined)"
| "elem _ i = JUndefined"

text \<open>\<open>ExtensionParserOptions\<close>; an absent field is \<open>None\<close>.\<close>

record ExtensionParserOptions =
  transform :: "bool option"
  valuePath :: "path_part list option"

text \<open>
  The extension handed to the value parser as \<open>parseExtension\<close>.  The code passes the
  function \<open>parseReferenceExtension\<close> itself; the model passes its name.
\<close>

datatype extension = ParseReferenceExtension

text \<open>The options \<open>Parser.start\<close> is called with.\<close>

record ParseOptions =
  fill :: "bool option"
  p_transform :: "bool option"
  parseExtension :: "extension option"
  p_valuePath :: "path_part list option"

text \<open>The result of an extension parser: not an extension, with the input passed on, or
  an extension with its generator function (here: the generator a call of it makes).\<close>

datatype ext_result = NotExtension (unextendedInput: jsval) | Extension (extensionParser: gen)

fun isExtension :: "ext_result \<Rightarrow> bool" where
  "isExtension (NotExtension v) = False"
| "isExtension (Extension g) = True"

text \<open>The two error messages, with the attribute path spliced in when there is one.\<close>

definition references_message :: "string option \<Rightarrow> string" where
  "references_message p =
     ''References '' @ (case p of Some s \<Rightarrow> ''for attribute '' @ [CHR 0x27] @ s @ [CHR 0x27] @ '' '' | None \<Rightarrow> '''')
       @ ''should be a tuple of one or two elements''"

definition reference_message :: "string option \<Rightarrow> string" where
  "reference_message p =
     ''First elements of references '' @ (case p of Some s \<Rightarrow> ''for attribute '' @ [CHR 0x27] @ s @ [CHR 0x27] @ '' '' | None \<Rightarrow> '''')
       @ ''should be strings''"

text \<open>
  The body of \<open>extensionParser\<close>.  \<open>formatArrayPath\<close> and \<open>Parser(schema).start\<close> are
  not among the sources and are parameters: \<open>fmt\<close> formats an array path (or gives
  \<open>undefined\<close>), \<open>start schema value options\<close> is the generator of the value parser.
\<close>

definition extensionParser_body ::
  "(path_part list \<Rightarrow> string option) \<Rightarrow> (schema \<Rightarrow> jsval \<Rightarrow> ParseOptions \<Rightarrow> gen) \<Rightarrow>
   schema \<Rightarrow> jsval \<Rightarrow> bool \<Rightarrow> path_part list option \<Rightarrow> gen" where
  "extensionParser_body fmt start sch inputValue transf vpath =
    (let references = get_prop inputValue GET_symbol;
         referencesPath = (case vpath of Some p \<Rightarrow> p | None \<Rightarrow> []) @ [PKey ''$GET'']
     in
     if \<not> isArray references then
       (let path = fmt referencesPath
        in Raises (DynamoDBToolboxError ''parsing.invalidAttributeInput''
                     (references_message path) path
                     (JObj [(StrKey ''received'', references)])))
     else
       (let reference = elem references 0;
            fallback = elem references 1
        in
        if \<not> isString reference then
          (let path = fmt (referencesPath @ [PIdx 0])
           in Raises (DynamoDBToolboxError ''parsing.invalidAttributeInput''
                        (reference_message path) path
                        (JObj [(StrKey ''received'', reference)])))
        else
          (let fallbackParser =
                 (if fallback \<noteq> JUndefined
                  then Some (start sch fallback
                         \<lparr>fill = Some False, p_transform = Some transf,
                          parseExtension = Some ParseReferenceExtension,
                          p_valuePath = Some (referencesPath @ [PIdx 1])\<rparr>)
                  else None)
           in
           (case fallbackParser of
              None \<Rightarrow>
                (let parsedValue = JObj [(GET_symbol, JArr [reference])]
                 in if transf
                    then Yields parsedValue (Returns (JObj [(GET_symbol, JArr [reference])]))
                    else Returns parsedValue)
            | Some fp \<Rightarrow>
                (case gen_next fp of
                   (Inl e, fp') \<Rightarrow> Raises e
                 | (Inr (v1, d1), fp') \<Rightarrow>
                     (let parsedValue = JObj [(GET_symbol, JArr [reference, v1])]
                      in if transf
                         then Yields parsedValue
                                (case gen_next fp' of
                                   (Inl e, fp'') \<Rightarrow> Raises e
                                 | (Inr (v2, d2), fp'') \<Rightarrow>
                                     Returns (JObj [(GET_symbol, JArr [reference, v2])]))
                         else Returns parsedValue))))))"

definition parseReferenceExtension ::
  "(path_part list \<Rightarrow> string option) \<Rightarrow> (schema \<Rightarrow> jsval \<Rightarrow> ParseOptions \<Rightarrow> gen) \<Rightarrow>
   schema \<Rightarrow> jsval \<Rightarrow> ExtensionParserOptions \<Rightarrow> ext_result" where
  "parseReferenceExtension fmt start sch inputValue opts =
    (let transf = (case transform opts of Some t \<Rightarrow> t | None \<Rightarrow> True)
     in
     if \<not> isGetting inputValue \<or> get_prop inputValue GET_symbol = JUndefined
     then NotExtension inputValue
     else Extension (extensionParser_body fmt start sch inputValue transf (valuePath opts)))"

text \<open>The fallback of a reference construct: element 1 of its \<open>$GET\<close> value.\<close>

definition fallback_of :: "jsval \<Rightarrow> jsval" where
  "fallback_of v = elem (get_prop v GET_symbol) 1"

text \<open>The options the fallback is parsed with, for a given \<open>transform\<close> and \<open>valuePath\<close>.\<close>

definition fallback_options :: "bool \<Rightarrow> path_part list option \<Rightarrow> ParseOptions" where
  "fallback_options transf vpath =
     \<lparr>fill = Some False, p_transform = Some transf,
      parseExtension = Some ParseReferenceExtension,
      p_valuePath = Some ((case vpath of Some p \<Rightarrow> p | None \<Rightarrow> []) @ [PKey ''$GET'', PIdx 1])\<rparr>"

subsection \<open>The value parser that re-enters the extension\<close>

text \<open>
  The extension calls the value parser on nothing but its fallback, which is a proper part
  of the input value; this is what makes the recursion below well-founded.
\<close>

lemma extensionParser_body_cong:
  assumes "\<And>o'. fallback_of v \<noteq> JUndefined \<Longrightarrow>
             start sch (fallback_of v) o' = start' sch (fallback_of v) o'"
  shows "extensionParser_body fmt start sch v t vp = extensionParser_body fmt start' sch v t vp"
  using assms unfolding extensionParser_body_def fallback_of_def Let_def by simp

lemma size_jsval_member: "x \<in> set xs \<Longrightarrow> size x < Suc (size_list size xs)"
  for x :: jsval
  by (induction xs) auto

lemma size_jsval_map_of:
  "map_of ps k = Some (v :: jsval) \<Longrightarrow> size v < Suc (size_list (size_prod (\<lambda>_. 0) size) ps)"
  by (induction ps) (auto split: if_splits)

lemma size_get_prop: "get_prop v k \<noteq> JUndefined \<Longrightarrow> size (get_prop v k) < size v"
  by (cases v) (auto split: option.splits dest: size_jsval_map_of)

lemma size_elem: "elem v i \<noteq> JUndefined \<Longrightarrow> size (elem v i) < size v"
  by (cases v) (auto split: if_splits simp: size_jsval_member)

lemma elem_undefined: "elem JUndefined i = JUndefined"
  by simp

lemma size_fallback_of: "fallback_of v \<noteq> JUndefined \<Longrightarrow> size (fallback_of v) < size v"
  unfolding fallback_of_def
  by (metis elem_undefined size_elem size_get_prop less_trans)

lemma parseReferenceExtension_cong [fundef_cong]:
  assumes "fmt = fmt'" "sch = sch'" "v = v'" "opts = opts'"
    and "\<And>s x o'. x = fallback_of v' \<Longrightarrow> x \<noteq> JUndefined \<Longrightarrow> start s x o' = start' s x o'"
  shows "parseReferenceExtension fmt start sch v opts = parseReferenceExtension fmt' start' sch' v' opts'"
  using assms unfolding parseReferenceExtension_def Let_def
  by (simp add: extensionParser_body_cong [of v' start sch' start'])

text \<open>
  Modelled from the spec: \<open>Parser(schema).start\<close>, the general value parser, which is not
  among the sources.  The spec has it parse a value against a schema node and be "itself
  capable of recursively invoking this same extension": with \<open>parseExtension\<close> set it asks
  the extension first, runs the extension's generator when the value is an extension, and
  otherwise parses the passed-on value as a plain value.  The plain-value pipeline
  (validation, fill, transform) is the parameter \<open>plain\<close>; \<open>fmt\<close> is \<open>formatArrayPath\<close>.
\<close>

function parser_start ::
  "(path_part list \<Rightarrow> string option) \<Rightarrow> (schema \<Rightarrow> jsval \<Rightarrow> ParseOptions \<Rightarrow> gen) \<Rightarrow>
   schema \<Rightarrow> jsval \<Rightarrow> ParseOptions \<Rightarrow> gen" where
  "parser_start fmt plain sch v popts =
     (case parseExtension popts of
        None \<Rightarrow> plain sch v popts
      | Some ParseReferenceExtension \<Rightarrow>
          (case parseReferenceExtension fmt (\<lambda>s x o'. parser_start fmt plain s x o') sch v
                  \<lparr>transform = p_transform popts, valuePath = p_valuePath popts\<rparr> of
             Extension g \<Rightarrow> g
           | NotExtension u \<Rightarrow> plain sch u popts))"
  by pat_completeness auto
termination
  by (relation "measure (\<lambda>(fmt, plain, sch, v, popts). size v)") (auto dest: size_fallback_of)

declare parser_start.simps [simp del]

text \<open>
  A fallback chain of depth \<open>n\<close>: \<open>n\<close> reference constructs nested through their
  fallbacks, around the plain value \<open>b\<close>.
\<close>

fun chain :: "nat \<Rightarrow> string \<Rightarrow> jsval \<Rightarrow> jsval" where
  "chain 0 r b = b"
| "chain (Suc n) r b = JObj [(GET_symbol, JArr [JStr r, chain n r b])]"

section \<open>Lightened schemas\<close>

text \<open>
  \<open>light\<close>, \<open>lightTuple\<close> and \<open>lightObj\<close> cast their argument to the lightened type; at
  run time a cast does nothing.  A rest-parameter tuple is a list, a keyed object an
  association list.
\<close>

definition light :: "schema \<Rightarrow> schema" where
  "light sch = sch"

definition lightTuple :: "schema list \<Rightarrow> schema list" where
  "lightTuple schemas = schemas"

definition lightObj :: "(string \<times> schema) list \<Rightarrow> (string \<times> schema) list" where
  "lightObj schemas = schemas"

section \<open>The condition compiler\<close>

text \<open>
  \<open>ConditionParser\<close> and what it is built from (the path lexer, the schema walker, the
  placeholder allocator) are not among the sources: only its test file is.  The definitions
  of this section are modelled from the spec, sections 3 and 4.1 to 4.4, and run the
  scenarios of the test file.
\<close>

subsection \<open>Path lexer\<close>

text \<open>
  Modelled from the spec: the path segment of the data model, "one of field with a name,
  index with a non-negative integer value, escapedField with a name".
\<close>

datatype segment = FieldSeg string | IndexSeg nat | EscapedFieldSeg string

text \<open>
  Modelled from the spec: the error kinds of section 7 that the compiler raises.
  \<open>InvalidPath\<close> carries the offending path and the 0-based index of the segment where
  lexing stopped; \<open>InvalidExpressionAttributePath\<close> carries the path.
\<close>

datatype compile_error =
    InvalidPath string "nat option"
  | UnresolvedPath
  | TypeMismatch
  | InvalidExpressionAttributePath string
  | InvalidInput

text \<open>
  Modelled from the spec: the characters that make up an index segment
  ("\<open>[\<close> digits \<open>]\<close>").
\<close>

definition is_digit :: "char \<Rightarrow> bool" where
  "is_digit c = (c \<in> set ''0123456789'')"

text \<open>Modelled from the spec: the value of one decimal digit of an index segment.\<close>

definition digit_value :: "char \<Rightarrow> nat" where
  "digit_value c = of_char c - 48"

text \<open>
  Modelled from the spec: the "non-negative integer" value of an index segment, its digits
  read in base ten.
\<close>

definition digits_value :: "string \<Rightarrow> nat" where
  "digits_value ds = foldl (\<lambda>n c. 10 * n + digit_value c) 0 ds"

text \<open>Modelled from the spec: the character of one decimal digit of an ordinal or index.\<close>

definition digit_char :: "nat \<Rightarrow> char" where
  "digit_char d = char_of (48 + d)"

text \<open>
  Modelled from the spec: the decimal numeral of an ordinal or of an index, as it is
  written into a token (\<open>#c_1\<close>) or into a compiled path (\<open>[4]\<close>).
\<close>

fun show_nat :: "nat \<Rightarrow> string" where
  "show_nat n = (if n < 10 then [digit_char n] else show_nat (n div 10) @ [digit_char (n mod 10)])"

declare show_nat.simps [simp del]

text \<open>
  Modelled from the spec: where the lexer of section 4.1 stands between two characters: at
  the start of a segment (start of the path, or after a \<open>.\<close>), inside an unquoted field,
  after an opening bracket, inside the digits of an index, inside a quoted key, after the
  quote that closes a quoted key, and after a closed bracket segment.
\<close>

datatype lex_state =
    SegStart
  | InField string
  | BracketOpen
  | InIndex string
  | InQuote string
  | QuoteClose string
  | SegEnd

text \<open>
  Modelled from the spec: the grammar of section 4.1, one character at a time.  Segments are
  separated by \<open>.\<close>; a bracket segment may also follow a segment directly
  (\<open>listed[4]\<close>, \<open>record['[']\<close>).  An index segment is \<open>[\<close> digits \<open>]\<close>; a quoted-key
  segment is \<open>['\<close> content \<open>']\<close>, the content being every character up to the next
  quote; an unquoted field segment is a non-empty run of characters other than \<open>.\<close>,
  \<open>[\<close> and \<open>]\<close>, so that a \<open>]\<close> met in a field, or a \<open>[\<close> that opens neither an index
  nor a quoted key, is a failure.  The result is the segments, or the index of the segment
  at which the grammar is violated.
\<close>

fun lex :: "lex_state \<Rightarrow> segment list \<Rightarrow> string \<Rightarrow> nat + segment list" where
  "lex st segs [] =
     (case st of
        InField a \<Rightarrow> Inr (segs @ [FieldSeg a])
      | SegEnd \<Rightarrow> Inr segs
      | _ \<Rightarrow> Inl (length segs))"
| "lex st segs (c # cs) =
     (case st of
        SegStart \<Rightarrow>
          if c = CHR ''['' then lex BracketOpen segs cs
          else if c = CHR ''.'' \<or> c = CHR '']'' then Inl (length segs)
          else lex (InField [c]) segs cs
      | InField a \<Rightarrow>
          if c = CHR ''.'' then lex SegStart (segs @ [FieldSeg a]) cs
          else if c = CHR ''['' then lex BracketOpen (segs @ [FieldSeg a]) cs
          else if c = CHR '']'' then Inl (length segs)
          else lex (InField (a @ [c])) segs cs
      | BracketOpen \<Rightarrow>
          if is_digit c then lex (InIndex [c]) segs cs
          else if c = CHR 0x27 then lex (InQuote []) segs cs
          else Inl (length segs)
      | InIndex ds \<Rightarrow>
          if is_digit c then lex (InIndex (ds @ [c])) segs cs
          else if c = CHR '']'' then lex SegEnd (segs @ [IndexSeg (digits_value ds)]) cs
          else Inl (length segs)
      | InQuote a \<Rightarrow>
          if c = CHR 0x27 then lex (QuoteClose a) segs cs
          else lex (InQuote (a @ [c])) segs cs
      | QuoteClose a \<Rightarrow>
          if c = CHR '']'' then lex SegEnd (segs @ [EscapedFieldSeg a]) cs
          else Inl (length segs)
      | SegEnd \<Rightarrow>
          if c = CHR ''.'' then lex SegStart segs cs
          else if c = CHR ''['' then lex BracketOpen segs cs
          else Inl (length segs))"

text \<open>
  Modelled from the spec: \<open>tokenize(path)\<close> of the PathLexer, which gives the sequence of
  segments or fails with \<open>InvalidPath\<close>.
\<close>

definition tokenize :: "string \<Rightarrow> compile_error + segment list" where
  "tokenize p = (case lex SegStart [] p of Inl i \<Rightarrow> Inl (InvalidPath p (Some i)) | Inr segs \<Rightarrow> Inr segs)"

subsection \<open>Schema walker\<close>

text \<open>Modelled from the spec: the discriminant of a schema node.\<close>

datatype kind =
  KAny | KNull | KBoolean | KNumber | KString | KBinary | KSet | KList | KMap | KRecord | KAnyOf

text \<open>Modelled from the spec: the discriminant that a node of a given shape carries.\<close>

fun kind_of :: "shape \<Rightarrow> kind" where
  "kind_of AnyS = KAny"
| "kind_of NullS = KNull"
| "kind_of BooleanS = KBoolean"
| "kind_of NumberS = KNumber"
| "kind_of StringS = KString"
| "kind_of BinaryS = KBinary"
| "kind_of (SetS e) = KSet"
| "kind_of (ListS e) = KList"
| "kind_of (MapS attrs) = KMap"
| "kind_of (RecordS k v) = KRecord"
| "kind_of (AnyOfS alts) = KAnyOf"

text \<open>
  Modelled from the spec: an element of the resolution result's sequence of storage names,
  "one per traversed segment, savedAs substituted where present, indices copied through
  unchanged".
\<close>

datatype name_part = NamePart string | IndexPart nat

text \<open>
  Modelled from the spec: the operations of section 4.4 whose rendered shape the spec gives
  (\<open>a = b\<close>, \<open>a BETWEEN b AND c\<close>, \<open>begins_with(a, b)\<close>), with their literal operands.
\<close>

datatype operation = Eq jsval | Between jsval jsval | BeginsWith jsval

text \<open>Modelled from the spec: the options of \<open>parse\<close>, \<open>expressionId\<close> and \<open>transform\<close>.\<close>

record compile_options =
  expressionId :: "string option"
  c_transform :: "bool option"

text \<open>
  Modelled from the spec: the first-match policy over the alternatives of an \<open>anyOf\<close>
  node, "attempt each alternative in declaration order", the first that succeeds wins and
  \<open>e\<close> is the failure when none does.
\<close>

fun first_success :: "('a \<Rightarrow> 'e + 'b) \<Rightarrow> 'e \<Rightarrow> 'a list \<Rightarrow> 'e + 'b" where
  "first_success f e [] = Inl e"
| "first_success f e (x # xs) = (case f x of Inr r \<Rightarrow> Inr r | Inl _ \<Rightarrow> first_success f e xs)"

lemma first_success_cong [fundef_cong]:
  "xs = ys \<Longrightarrow> e = e' \<Longrightarrow> (\<And>x. x \<in> set ys \<Longrightarrow> f x = g x) \<Longrightarrow>
   first_success f e xs = first_success g e' ys"
  by (induction ys arbitrary: xs) (auto split: sum.splits)

text \<open>Modelled from the spec: emitting a storage name in front of what the rest resolves to.\<close>

fun with_part ::
  "name_part \<Rightarrow> 'e + (schema \<times> name_part list \<times> 'a) \<Rightarrow> 'e + (schema \<times> name_part list \<times> 'a)" where
  "with_part p (Inl e) = Inl e"
| "with_part p (Inr (node, parts, r)) = Inr (node, p # parts, r)"

text \<open>Every step of the walker goes to a child of the current node.\<close>

lemma size_schema_member: "x \<in> set xs \<Longrightarrow> size x < Suc (size_list size xs)"
  for x :: schema
  by (induction xs) auto

lemma size_schema_map_of:
  "map_of ps k = Some (c :: schema) \<Longrightarrow> size c < Suc (size_list (size_prod (\<lambda>_. 0) size) ps)"
  by (induction ps) (auto split: if_splits)

lemma size_shape_element:
  "shape node = ListS el \<Longrightarrow> size el < size node"
  "shape node = SetS el \<Longrightarrow> size el < size node"
  "shape node = RecordS keys el \<Longrightarrow> size el < size node"
  by (cases node; simp)+

lemma size_shape_alternative:
  "shape node = AnyOfS alts \<Longrightarrow> alt \<in> set alts \<Longrightarrow> size alt < size node"
  using size_schema_member [of alt alts] by (cases node) simp

lemma size_shape_attribute:
  "shape node = MapS attrs \<Longrightarrow> map_of attrs name = Some child \<Longrightarrow> size child < size node"
  using size_schema_map_of [of attrs name child] by (cases node) simp

text \<open>
  Modelled from the spec: \<open>resolve(rootNode, segments)\<close> of the SchemaWalker, section 4.2,
  with the terminal check \<open>tm\<close> of the operation as a parameter.  A field or escaped-field
  segment against a map looks the declared key up and emits the child's \<open>savedAs\<close> or
  the key; against a record it accepts any name and emits it unchanged; against an
  \<open>anyOf\<close> it takes the first alternative under which the remaining segments resolve and
  the operand type-checks.  An index segment is legal against a list or a set only.  When
  the segments are exhausted the terminal check decides, an \<open>anyOf\<close> terminal being
  tested alternative by alternative.  The result is the terminal node, the storage names
  and what the terminal check returned.
\<close>

function resolve ::
  "(schema \<Rightarrow> compile_error + 'a) \<Rightarrow> schema \<Rightarrow> segment list \<Rightarrow>
   compile_error + (schema \<times> name_part list \<times> 'a)" where
  "resolve tm node [] =
     (case shape node of
        AnyOfS alts \<Rightarrow> first_success (\<lambda>alt. resolve tm alt []) TypeMismatch alts
      | _ \<Rightarrow> (case tm node of Inl e \<Rightarrow> Inl e | Inr r \<Rightarrow> Inr (node, [], r)))"
| "resolve tm node (IndexSeg i # rest) =
     (case shape node of
        ListS el \<Rightarrow> with_part (IndexPart i) (resolve tm el rest)
      | SetS el \<Rightarrow> with_part (IndexPart i) (resolve tm el rest)
      | _ \<Rightarrow> Inl UnresolvedPath)"
| "resolve tm node (FieldSeg name # rest) =
     (case shape node of
        MapS attrs \<Rightarrow>
          (case map_of attrs name of
             None \<Rightarrow> Inl UnresolvedPath
           | Some child \<Rightarrow>
               with_part (NamePart (case savedAs child of Some s \<Rightarrow> s | None \<Rightarrow> name))
                 (resolve tm child rest))
      | RecordS keys el \<Rightarrow> with_part (NamePart name) (resolve tm el rest)
      | AnyOfS alts \<Rightarrow> first_success (\<lambda>alt. resolve tm alt (FieldSeg name # rest)) UnresolvedPath alts
      | _ \<Rightarrow> Inl UnresolvedPath)"
| "resolve tm node (EscapedFieldSeg name # rest) =
     (case shape node of
        MapS attrs \<Rightarrow>
          (case map_of attrs name of
             None \<Rightarrow> Inl UnresolvedPath
           | Some child \<Rightarrow>
               with_part (NamePart (case savedAs child of Some s \<Rightarrow> s | None \<Rightarrow> name))
                 (resolve tm child rest))
      | RecordS keys el \<Rightarrow> with_part (NamePart name) (resolve tm el rest)
      | AnyOfS alts \<Rightarrow>
          first_success (\<lambda>alt. resolve tm alt (EscapedFieldSeg name # rest)) UnresolvedPath alts
      | _ \<Rightarrow> Inl UnresolvedPath)"
  by pat_completeness auto
termination
proof (relation "measure (\<lambda>(tm, node, segs). size node)")
  show "wf (measure (\<lambda>(tm, node, segs). size node))" by simp
qed (simp_all add: size_shape_element size_shape_alternative size_shape_attribute)

subsection \<open>Placeholder allocator\<close>

text \<open>
  Modelled from the spec: the token format of section 4.3, "name tokens are \<open>#c\<close> +
  expressionId + \<open>_\<close> + ordinal".
\<close>

definition name_token :: "string \<Rightarrow> nat \<Rightarrow> string" where
  "name_token eid n = ''#c'' @ eid @ ''_'' @ show_nat n"

text \<open>
  Modelled from the spec: the token format of section 4.3, "value tokens are \<open>:c\<close> +
  expressionId + \<open>_\<close> + ordinal".
\<close>

definition value_token :: "string \<Rightarrow> nat \<Rightarrow> string" where
  "value_token eid n = '':c'' @ eid @ ''_'' @ show_nat n"

text \<open>
  Modelled from the spec: \<open>allocateName(storageName)\<close>.  The name table is an
  insertion-ordered mapping from token to storage name, owned by one \<open>parse\<close> call.  A
  name already seen while the document path is built gets its token again; a new name gets
  the next ordinal, which starts at 1.
\<close>

definition allocateName ::
  "string \<Rightarrow> (string \<times> string) list \<Rightarrow> string \<Rightarrow> string \<times> (string \<times> string) list" where
  "allocateName eid names storageName =
     (case find (\<lambda>entry. snd entry = storageName) names of
        Some entry \<Rightarrow> (fst entry, names)
      | None \<Rightarrow>
          (let token = name_token eid (Suc (length names))
           in (token, names @ [(token, storageName)])))"

text \<open>
  Modelled from the spec: \<open>allocateValue(literal)\<close>, one new value placeholder per literal
  operand, the ordinal starting at 1.
\<close>

definition allocateValue ::
  "string \<Rightarrow> (string \<times> jsval) list \<Rightarrow> jsval \<Rightarrow> string \<times> (string \<times> jsval) list" where
  "allocateValue eid vals literal =
     (let token = value_token eid (Suc (length vals))
      in (token, vals @ [(token, literal)]))"

subsection \<open>Expression compiler\<close>

text \<open>
  Modelled from the spec: the document path string of section 4.4, built "by joining the
  resolved storage names with \<open>.\<close> and appending any index segments as \<open>[n]\<close> directly
  onto the preceding name token".  Only names are given placeholders.
\<close>

fun build_path ::
  "string \<Rightarrow> name_part list \<Rightarrow> (string \<times> string) list \<Rightarrow> string \<Rightarrow>
   string \<times> (string \<times> string) list" where
  "build_path eid [] names acc = (acc, names)"
| "build_path eid (NamePart s # parts) names acc =
     (case allocateName eid names s of
        (token, names') \<Rightarrow>
          build_path eid parts names' (if acc = [] then token else acc @ ''.'' @ token))"
| "build_path eid (IndexPart i # parts) names acc =
     build_path eid parts names (acc @ ''['' @ show_nat i @ '']'')"

text \<open>
  Modelled from the spec: the value validation and transform pipeline is an external
  collaborator, "a function \<open>validate(node, rawValue, opts)\<close>" that gives the transformed
  value or raises; it is the parameter \<open>validate\<close>, \<open>None\<close> standing for a raise.  Every
  literal operand of the operation is validated against the terminal node.
\<close>

fun validate_operation ::
  "(schema \<Rightarrow> jsval \<Rightarrow> compile_options \<Rightarrow> jsval option) \<Rightarrow> compile_options \<Rightarrow>
   operation \<Rightarrow> schema \<Rightarrow> operation option" where
  "validate_operation validate opts (Eq v) node = map_option Eq (validate node v opts)"
| "validate_operation validate opts (BeginsWith v) node = map_option BeginsWith (validate node v opts)"
| "validate_operation validate opts (Between lo hi) node =
     (case validate node lo opts of
        None \<Rightarrow> None
      | Some lo' \<Rightarrow>
          (case validate node hi opts of
             None \<Rightarrow> None
           | Some hi' \<Rightarrow> Some (Between lo' hi')))"

text \<open>
  Modelled from the spec: the terminal type check of section 4.2, "the operation's declared
  accepted kinds are checked against the node's discriminant", and the validation of the
  literal of section 4.4.  The spec does not list the accepted kinds of each operation; they
  are the parameter \<open>kinds\<close>.
\<close>

definition check_terminal ::
  "(operation \<Rightarrow> kind list) \<Rightarrow> (schema \<Rightarrow> jsval \<Rightarrow> compile_options \<Rightarrow> jsval option) \<Rightarrow>
   compile_options \<Rightarrow> operation \<Rightarrow> schema \<Rightarrow> compile_error + operation" where
  "check_terminal kinds validate opts op node =
     (if kind_of (shape node) \<notin> set (kinds op) then Inl TypeMismatch
      else (case validate_operation validate opts op node of
              None \<Rightarrow> Inl InvalidInput
            | Some op' \<Rightarrow> Inr op'))"

text \<open>
  Modelled from the spec: the operator-specific expression shapes of section 4.4, with one
  value placeholder per literal operand (two for \<open>between\<close>).
\<close>

fun render :: "string \<Rightarrow> string \<Rightarrow> operation \<Rightarrow> string \<times> (string \<times> jsval) list" where
  "render eid p (Eq v) =
     (case allocateValue eid [] v of (t, vals) \<Rightarrow> (p @ '' = '' @ t, vals))"
| "render eid p (BeginsWith v) =
     (case allocateValue eid [] v of (t, vals) \<Rightarrow> (''begins_with('' @ p @ '', '' @ t @ '')'', vals))"
| "render eid p (Between lo hi) =
     (case allocateValue eid [] lo of
        (t1, vals1) \<Rightarrow>
          (case allocateValue eid vals1 hi of
             (t2, vals2) \<Rightarrow> (p @ '' BETWEEN '' @ t1 @ '' AND '' @ t2, vals2)))"

text \<open>
  Modelled from the spec: the compiled output, an expression string with its name table and
  its value table, under the names the test file reads it by.  The two tables are
  association lists in insertion order.
\<close>

record compiled =
  ConditionExpression :: string
  ExpressionAttributeNames :: "(string \<times> string) list"
  ExpressionAttributeValues :: "(string \<times> jsval) list"

text \<open>
  Modelled from the spec: \<open>parse(path, operation, options)\<close> of the ExpressionCompiler:
  tokenize, resolve, allocate for the names and then for the values, render.  A path that
  fails lexing or resolution is an \<open>InvalidExpressionAttributePath\<close>; the expression id
  defaults to the empty string.
\<close>

definition parse ::
  "(operation \<Rightarrow> kind list) \<Rightarrow> (schema \<Rightarrow> jsval \<Rightarrow> compile_options \<Rightarrow> jsval option) \<Rightarrow>
   schema \<Rightarrow> string \<Rightarrow> operation \<Rightarrow> compile_options \<Rightarrow> compile_error + compiled" where
  "parse kinds validate root p op opts =
     (case tokenize p of
        Inl e \<Rightarrow> Inl (InvalidExpressionAttributePath p)
      | Inr segs \<Rightarrow>
          (case resolve (check_terminal kinds validate opts op) root segs of
             Inl UnresolvedPath \<Rightarrow> Inl (InvalidExpressionAttributePath p)
           | Inl e \<Rightarrow> Inl e
           | Inr (node, parts, op') \<Rightarrow>
               (let eid = (case expressionId opts of Some i \<Rightarrow> i | None \<Rightarrow> '''')
                in case build_path eid parts [] '''' of
                     (docPath, names) \<Rightarrow>
                       (case render eid docPath op' of
                          (expr, vals) \<Rightarrow>
                            Inr \<lparr>ConditionExpression = expr, ExpressionAttributeNames = names,
                                 ExpressionAttributeValues = vals\<rparr>))))"

subsection \<open>The schemas of the test file\<close>

text \<open>\<open>schemaWithSavedAs\<close> of the test file; an item is a map of its attributes.\<close>

definition schemaWithSavedAs :: schema where
  "schemaWithSavedAs = Schema None (MapS
     [(''savedAs'', Schema (Some ''_s'') StringS),
      (''deep'', Schema (Some ''_n'') (MapS [(''savedAs'', Schema (Some ''_s'') StringS)])),
      (''listed'', Schema (Some ''_l'')
          (ListS (Schema None (MapS [(''savedAs'', Schema (Some ''_s'') StringS)]))))])"



text \<open>
  A table whose keys are the tokens of the ordinals 1, 2, ... in insertion order.
\<close>

definition ordinal_keys :: "(nat \<Rightarrow> string) \<Rightarrow> (string \<times> 'a) list \<Rightarrow> bool" where
  "ordinal_keys tok tbl = (map fst tbl = map tok [1..<Suc (length tbl)])"

section \<open>Properties of the reference extension parser\<close>

text \<open>What the generator body is on a well-formed construct, without and with a fallback.\<close>

lemma body_no_fallback:
  assumes "get_prop v GET_symbol = JArr refs" and "elem (JArr refs) 0 = JStr r"
    and "elem (JArr refs) 1 = JUndefined"
  shows "extensionParser_body fmt start sch v transf vp =
           (if transf
            then Yields (JObj [(GET_symbol, JArr [JStr r])]) (Returns (JObj [(GET_symbol, JArr [JStr r])]))
            else Returns (JObj [(GET_symbol, JArr [JStr r])]))"
  using assms by (simp add: extensionParser_body_def Let_def del: elem.simps)

lemma body_fallback:
  assumes "get_prop v GET_symbol = JArr refs" and "elem (JArr refs) 0 = JStr r"
    and "elem (JArr refs) 1 = fb" and "fb \<noteq> JUndefined"
  shows "extensionParser_body fmt start sch v transf vp =
           (case gen_next (start sch fb (fallback_options transf vp)) of
              (Inl e, fp') \<Rightarrow> Raises e
            | (Inr (v1, d1), fp') \<Rightarrow>
                if transf
                then Yields (JObj [(GET_symbol, JArr [JStr r, v1])])
                       (case gen_next fp' of
                          (Inl e, fp'') \<Rightarrow> Raises e
                        | (Inr (v2, d2), fp'') \<Rightarrow> Returns (JObj [(GET_symbol, JArr [JStr r, v2])]))
                else Returns (JObj [(GET_symbol, JArr [JStr r, v1])]))"
  using assms
  by (simp add: extensionParser_body_def fallback_options_def Let_def del: elem.simps
        split: prod.splits sum.splits)

text \<open>
  C1.  The specification has the first advancement of the generator raise
  \<open>InvalidAttributeInput\<close> exactly when the \<open>$GET\<close> value is not an ordered pair of
  one or two elements or its first element is not a string, and the message of the code's
  own error asks for "a tuple of one or two elements".  The code tests only that the
  \<open>$GET\<close> value is an array and that its first element is a string.  On the
  three-element array \<open>['a', 'b', 'c']\<close>, with a value parser that accepts the fallback,
  nothing is raised: \<open>{ [$GET]: ['a', 'b'] }\<close> is yielded and then returned, the third
  element dropped.
\<close>

theorem three_element_reference_accepted:
  "parseReferenceExtension (\<lambda>p. None) (\<lambda>s x o'. Yields x (Returns x)) (Schema None StringS)
     (JObj [(GET_symbol, JArr [JStr ''a'', JStr ''b'', JStr ''c''])])
     \<lparr>transform = None, valuePath = None\<rparr>
   = Extension (Yields (JObj [(GET_symbol, JArr [JStr ''a'', JStr ''b''])])
                 (Returns (JObj [(GET_symbol, JArr [JStr ''a'', JStr ''b''])])))"
  by (simp add: parseReferenceExtension_def extensionParser_body_def Let_def)

theorem three_element_reference_accepted_witness:
  "gen_values (extensionParser
     (parseReferenceExtension (\<lambda>p. None) (\<lambda>s x o'. Yields x (Returns x)) (Schema None StringS)
        (JObj [(GET_symbol, JArr [JStr ''a'', JStr ''b'', JStr ''c''])])
        \<lparr>transform = None, valuePath = None\<rparr>))
   = [JObj [(GET_symbol, JArr [JStr ''a'', JStr ''b''])], JObj [(GET_symbol, JArr [JStr ''a'', JStr ''b''])]]"
  using three_element_reference_accepted by simp

text \<open>
  C2.  For a well-formed reference construct (its \<open>$GET\<close> value an array whose first
  element is a string, and whose fallback, when there is one, the value parser advances
  twice without raising), parsed with transform enabled (the option absent or true), the
  generator yields on its first advancement the intermediate value and returns on its second
  the final value.  Both are an object with the one entry \<open>$GET\<close>, holding the reference
  followed, when there is a fallback, by what the fallback's parser gave at the same
  advancement.
\<close>

theorem two_phase_protocol:
  assumes "isGetting v" and "get_prop v GET_symbol = JArr refs"
    and "elem (JArr refs) 0 = JStr r"
    and "transform opts \<noteq> Some False"
    and "elem (JArr refs) 1 \<noteq> JUndefined \<Longrightarrow>
           gen_next (start sch (elem (JArr refs) 1)
                       (fallback_options True (valuePath opts))) = (Inr (v1, d1), g1)
           \<and> gen_next g1 = (Inr (v2, d2), g2)"
  shows "\<exists>g g'. parseReferenceExtension fmt start sch v opts = Extension g
          \<and> gen_next g =
              (Inr (JObj [(GET_symbol, JArr (JStr r # (if elem (JArr refs) 1 = JUndefined then [] else [v1])))],
                    False), g')
          \<and> gen_next g' =
              (Inr (JObj [(GET_symbol, JArr (JStr r # (if elem (JArr refs) 1 = JUndefined then [] else [v2])))],
                    True), Finished)"
proof -
  have t: "(case transform opts of Some t \<Rightarrow> t | None \<Rightarrow> True) = True"
    using assms(4) by (cases "transform opts") auto
  have ext: "parseReferenceExtension fmt start sch v opts =
               Extension (extensionParser_body fmt start sch v True (valuePath opts))"
    using assms(1,2) t by (simp add: parseReferenceExtension_def)
  show ?thesis
  proof (cases "elem (JArr refs) 1 = JUndefined")
    case True
    then show ?thesis
      using ext body_no_fallback [OF assms(2,3) True, of fmt start sch True "valuePath opts"]
      by simp
  next
    case False
    then show ?thesis
      using ext assms(5) body_fallback [OF assms(2,3) refl False, of fmt start sch True "valuePath opts"]
      by simp
  qed
qed

theorem two_phase_protocol_witness:
  "isGetting (JObj [(GET_symbol, JArr [JStr ''ref'', JStr ''dflt''])])
   \<and> (\<exists>g g'. parseReferenceExtension (\<lambda>p. None) (\<lambda>s x o'. Yields x (Returns (JStr ''DFLT'')))
             (Schema None StringS)
             (JObj [(GET_symbol, JArr [JStr ''ref'', JStr ''dflt''])])
             \<lparr>transform = None, valuePath = None\<rparr> = Extension g
     \<and> gen_next g = (Inr (JObj [(GET_symbol, JArr [JStr ''ref'', JStr ''dflt''])], False), g')
     \<and> gen_next g' = (Inr (JObj [(GET_symbol, JArr [JStr ''ref'', JStr ''DFLT''])], True), Finished))"
  using two_phase_protocol [of "JObj [(GET_symbol, JArr [JStr ''ref'', JStr ''dflt''])]"
      "[JStr ''ref'', JStr ''dflt'']" "''ref''" "\<lparr>transform = None, valuePath = None\<rparr>"
      "\<lambda>s x o'. Yields x (Returns (JStr ''DFLT''))" "Schema None StringS" "JStr ''dflt''" False
      "Returns (JStr ''DFLT'')" "JStr ''DFLT''" True Finished "\<lambda>p. None"]
  by simp

text \<open>
  C3.  A value that is not shaped as a reference construct (it is no object with a
  \<open>$GET\<close> key, or its \<open>$GET\<close> entry is \<open>undefined\<close>) is answered with
  \<open>isExtension: false\<close>, and \<open>unextendedInput\<close> is the input value itself.
\<close>

theorem not_reference_passthrough:
  assumes "\<not> (isGetting v \<and> get_prop v GET_symbol \<noteq> JUndefined)"
  shows "parseReferenceExtension fmt start sch v opts = NotExtension v
       \<and> isExtension (parseReferenceExtension fmt start sch v opts) = False
       \<and> unextendedInput (parseReferenceExtension fmt start sch v opts) = v"
  using assms by (auto simp: parseReferenceExtension_def)

theorem not_reference_passthrough_witness:
  "\<not> (isGetting (JObj [(StrKey ''a'', JNum 1)])
        \<and> get_prop (JObj [(StrKey ''a'', JNum 1)]) GET_symbol \<noteq> JUndefined)
   \<and> parseReferenceExtension (\<lambda>p. None) (\<lambda>s x o'. Returns x) (Schema None StringS)
        (JObj [(StrKey ''a'', JNum 1)]) \<lparr>transform = None, valuePath = None\<rparr>
      = NotExtension (JObj [(StrKey ''a'', JNum 1)])"
  using not_reference_passthrough [of "JObj [(StrKey ''a'', JNum 1)]" "\<lambda>p. None"
        "\<lambda>s x o'. Returns x" "Schema None StringS" "\<lparr>transform = None, valuePath = None\<rparr>"]
  by simp

text \<open>
  C4.  For a well-formed reference construct the reference string is not resolved: every
  value the generator hands out, intermediate or final, whatever the value parser does with
  the fallback, is an object whose \<open>$GET\<close> array starts with the reference string as it
  was given.  Without a fallback these values are exactly the intermediate and the final one
  (the single returned one when transform is off).
\<close>

theorem reference_verbatim:
  assumes "isGetting v" and "get_prop v GET_symbol = JArr refs"
    and "elem (JArr refs) 0 = JStr r"
  shows "\<exists>g. parseReferenceExtension fmt start sch v opts = Extension g
           \<and> (\<forall>out \<in> set (gen_values g). \<exists>rest. out = JObj [(GET_symbol, JArr (JStr r # rest))])
           \<and> (elem (JArr refs) 1 = JUndefined \<longrightarrow>
                gen_values g =
                  (if transform opts = Some False then [JObj [(GET_symbol, JArr [JStr r])]]
                   else [JObj [(GET_symbol, JArr [JStr r])], JObj [(GET_symbol, JArr [JStr r])]]))"
proof -
  define transf where "transf = (case transform opts of Some t \<Rightarrow> t | None \<Rightarrow> True)"
  have tf: "transf = (transform opts \<noteq> Some False)"
    by (cases "transform opts") (auto simp: transf_def)
  have ext: "parseReferenceExtension fmt start sch v opts =
               Extension (extensionParser_body fmt start sch v transf (valuePath opts))"
    using assms(1,2) by (simp add: parseReferenceExtension_def transf_def)
  show ?thesis
  proof (cases "elem (JArr refs) 1 = JUndefined")
    case True
    then show ?thesis
      using ext tf body_no_fallback [OF assms(2,3) True, of fmt start sch transf "valuePath opts"]
      by simp
  next
    case False
    then show ?thesis
      using ext body_fallback [OF assms(2,3) refl False, of fmt start sch transf "valuePath opts"]
      by (auto split: prod.splits sum.splits if_splits)
  qed
qed

theorem reference_verbatim_witness:
  "isGetting (JObj [(GET_symbol, JArr [JStr ''a.b[0]'', JStr ''dflt''])])
   \<and> (\<exists>g. parseReferenceExtension (\<lambda>p. None) (\<lambda>s x o'. Yields x (Returns (JStr ''DFLT'')))
             (Schema None StringS)
             (JObj [(GET_symbol, JArr [JStr ''a.b[0]'', JStr ''dflt''])])
             \<lparr>transform = Some True, valuePath = None\<rparr> = Extension g
     \<and> gen_values g = [JObj [(GET_symbol, JArr [JStr ''a.b[0]'', JStr ''dflt''])],
                        JObj [(GET_symbol, JArr [JStr ''a.b[0]'', JStr ''DFLT''])]]
     \<and> (\<forall>out \<in> set (gen_values g). \<exists>rest. out = JObj [(GET_symbol, JArr (JStr ''a.b[0]'' # rest))]))"
  using reference_verbatim [of "JObj [(GET_symbol, JArr [JStr ''a.b[0]'', JStr ''dflt''])]"
      "[JStr ''a.b[0]'', JStr ''dflt'']" "''a.b[0]''" "\<lambda>p. None"
      "\<lambda>s x o'. Yields x (Returns (JStr ''DFLT''))"
      "Schema None StringS" "\<lparr>transform = Some True, valuePath = None\<rparr>"]
  by (simp add: parseReferenceExtension_def extensionParser_body_def Let_def)

text \<open>Through a chain of any depth the general value parser yields and then returns.\<close>

lemma chain_defined: "b \<noteq> JUndefined \<Longrightarrow> chain n r b \<noteq> JUndefined"
  by (cases n) auto

lemma parser_start_chain:
  assumes "\<forall>vp'. plain sch b (fallback_options True vp') = Yields b1 (Returns b2)"
    and "\<not> isGetting b" and "b \<noteq> JUndefined"
  shows "parser_start fmt plain sch (chain n r b) (fallback_options True vp)
           = Yields (chain n r b1) (Returns (chain n r b2))"
proof (induction n arbitrary: vp)
  case 0
  have "parseReferenceExtension fmt (\<lambda>s x o'. parser_start fmt plain s x o') sch b
          \<lparr>transform = Some True, valuePath = p_valuePath (fallback_options True vp)\<rparr> = NotExtension b"
    using assms(2) by (simp add: parseReferenceExtension_def)
  then show ?case
    using assms(1) by (simp add: parser_start.simps [of fmt plain sch b] fallback_options_def)
next
  case (Suc n)
  let ?v = "JObj [(GET_symbol, JArr [JStr r, chain n r b])]"
  let ?vp = "p_valuePath (fallback_options True vp)"
  have fb: "elem (JArr [JStr r, chain n r b]) 1 = chain n r b" by simp
  have body: "extensionParser_body fmt (\<lambda>s x o'. parser_start fmt plain s x o') sch ?v True ?vp
          = Yields (JObj [(GET_symbol, JArr [JStr r, chain n r b1])])
              (Returns (JObj [(GET_symbol, JArr [JStr r, chain n r b2])]))"
    using body_fallback [of ?v "[JStr r, chain n r b]" r "chain n r b" fmt
        "\<lambda>s x o'. parser_start fmt plain s x o'" sch True ?vp, OF _ _ fb chain_defined [OF assms(3)]]
      Suc.IH [of ?vp]
    by simp
  have "parseReferenceExtension fmt (\<lambda>s x o'. parser_start fmt plain s x o') sch ?v
          \<lparr>transform = Some True, valuePath = ?vp\<rparr>
        = Extension (extensionParser_body fmt (\<lambda>s x o'. parser_start fmt plain s x o') sch ?v True ?vp)"
    by (simp add: parseReferenceExtension_def)
  then show ?case
    using body by (simp add: parser_start.simps [of fmt plain sch ?v] fallback_options_def)
qed

lemma parser_start_chain_untransformed:
  assumes "\<forall>vp'. plain sch b (fallback_options False vp') = Returns b1"
    and "\<not> isGetting b" and "b \<noteq> JUndefined"
  shows "parser_start fmt plain sch (chain n r b) (fallback_options False vp)
           = Returns (chain n r b1)"
proof (induction n arbitrary: vp)
  case 0
  have "parseReferenceExtension fmt (\<lambda>s x o'. parser_start fmt plain s x o') sch b
          \<lparr>transform = Some False, valuePath = p_valuePath (fallback_options False vp)\<rparr> = NotExtension b"
    using assms(2) by (simp add: parseReferenceExtension_def)
  then show ?case
    using assms(1) by (simp add: parser_start.simps [of fmt plain sch b] fallback_options_def)
next
  case (Suc n)
  let ?v = "JObj [(GET_symbol, JArr [JStr r, chain n r b])]"
  let ?vp = "p_valuePath (fallback_options False vp)"
  have fb: "elem (JArr [JStr r, chain n r b]) 1 = chain n r b" by simp
  have body: "extensionParser_body fmt (\<lambda>s x o'. parser_start fmt plain s x o') sch ?v False ?vp
          = Returns (JObj [(GET_symbol, JArr [JStr r, chain n r b1])])"
    using body_fallback [of ?v "[JStr r, chain n r b]" r "chain n r b" fmt
        "\<lambda>s x o'. parser_start fmt plain s x o'" sch False ?vp, OF _ _ fb chain_defined [OF assms(3)]]
      Suc.IH [of ?vp]
    by simp
  have "parseReferenceExtension fmt (\<lambda>s x o'. parser_start fmt plain s x o') sch ?v
          \<lparr>transform = Some False, valuePath = ?vp\<rparr>
        = Extension (extensionParser_body fmt (\<lambda>s x o'. parser_start fmt plain s x o') sch ?v False ?vp)"
    by (simp add: parseReferenceExtension_def)
  then show ?case
    using body by (simp add: parser_start.simps [of fmt plain sch ?v] fallback_options_def)
qed

text \<open>
  C5.  For every reference construct with a fallback \<open>fb\<close>, under either transform
  setting: (1) the only call of the value parser that the result depends on is the one on
  \<open>fb\<close>, against the schema node the construct is parsed against, with \<open>fill\<close> off, the
  construct's \<open>transform\<close>, \<open>parseReferenceExtension\<close> as \<open>parseExtension\<close> and the
  value path extended by \<open>$GET\<close> and \<open>1\<close>; (2) what that parser raises at an
  advancement, the extension raises at the same advancement; (3) whenever that parser hands
  out values, the extension hands out the construct with the parsed fallback in second
  place: returned at once when transform is off, yielded and then returned when it is on;
  (4) with the general value parser, which asks the installed extension first, a fallback
  that is a chain of reference constructs of any depth \<open>n\<close> around a plain value that the
  plain-value parser accepts is accepted, and the chain comes back, in both phases when
  transform is on and in the single returned value when it is off.
\<close>

theorem fallback_parsed_recursively:
  assumes "isGetting v" and "get_prop v GET_symbol = JArr refs"
    and "elem (JArr refs) 0 = JStr r" and "elem (JArr refs) 1 = fb" and "fb \<noteq> JUndefined"
    and "transf = (case transform opts of Some t \<Rightarrow> t | None \<Rightarrow> True)"
  shows "(\<forall>start'. start' sch fb (fallback_options transf (valuePath opts))
                    = start sch fb (fallback_options transf (valuePath opts))
            \<longrightarrow> parseReferenceExtension fmt start' sch v opts = parseReferenceExtension fmt start sch v opts)
       \<and> (\<forall>e. start sch fb (fallback_options transf (valuePath opts)) = Raises e
            \<longrightarrow> parseReferenceExtension fmt start sch v opts = Extension (Raises e))
       \<and> (\<forall>plain b b1 b2 n r'.
            (\<forall>vp'. plain sch b (fallback_options True vp') = Yields b1 (Returns b2))
            \<and> \<not> isGetting b \<and> b \<noteq> JUndefined \<and> fb = chain n r' b \<and> transf
            \<longrightarrow> parseReferenceExtension fmt (parser_start fmt plain) sch v opts
                  = Extension (Yields (JObj [(GET_symbol, JArr [JStr r, chain n r' b1])])
                                (Returns (JObj [(GET_symbol, JArr [JStr r, chain n r' b2])]))))
       \<and> (\<forall>plain b b1 n r'.
            (\<forall>vp'. plain sch b (fallback_options False vp') = Returns b1)
            \<and> \<not> isGetting b \<and> b \<noteq> JUndefined \<and> fb = chain n r' b \<and> \<not> transf
            \<longrightarrow> parseReferenceExtension fmt (parser_start fmt plain) sch v opts
                  = Extension (Returns (JObj [(GET_symbol, JArr [JStr r, chain n r' b1])])))
       \<and> (\<forall>v1 d1 g1.
            gen_next (start sch fb (fallback_options transf (valuePath opts))) = (Inr (v1, d1), g1)
            \<and> \<not> transf
            \<longrightarrow> parseReferenceExtension fmt start sch v opts
                  = Extension (Returns (JObj [(GET_symbol, JArr [JStr r, v1])])))
       \<and> (\<forall>v1 d1 g1 v2 d2 g2.
            gen_next (start sch fb (fallback_options transf (valuePath opts))) = (Inr (v1, d1), g1)
            \<and> gen_next g1 = (Inr (v2, d2), g2) \<and> transf
            \<longrightarrow> parseReferenceExtension fmt start sch v opts
                  = Extension (Yields (JObj [(GET_symbol, JArr [JStr r, v1])])
                                (Returns (JObj [(GET_symbol, JArr [JStr r, v2])]))))
       \<and> (\<forall>v1 d1 g1 e g2.
            gen_next (start sch fb (fallback_options transf (valuePath opts))) = (Inr (v1, d1), g1)
            \<and> gen_next g1 = (Inl e, g2) \<and> transf
            \<longrightarrow> parseReferenceExtension fmt start sch v opts
                  = Extension (Yields (JObj [(GET_symbol, JArr [JStr r, v1])]) (Raises e)))"
proof -
  have ext: "parseReferenceExtension fmt st sch v opts =
               Extension (extensionParser_body fmt st sch v transf (valuePath opts))" for st
    using assms(1,2,6) by (simp add: parseReferenceExtension_def)
  have body: "extensionParser_body fmt st sch v transf (valuePath opts) =
           (case gen_next (st sch fb (fallback_options transf (valuePath opts))) of
              (Inl e, fp') \<Rightarrow> Raises e
            | (Inr (v1, d1), fp') \<Rightarrow>
                if transf
                then Yields (JObj [(GET_symbol, JArr [JStr r, v1])])
                       (case gen_next fp' of
                          (Inl e, fp'') \<Rightarrow> Raises e
                        | (Inr (v2, d2), fp'') \<Rightarrow> Returns (JObj [(GET_symbol, JArr [JStr r, v2])]))
                else Returns (JObj [(GET_symbol, JArr [JStr r, v1])]))" for st
    by (rule body_fallback [OF assms(2,3,4,5)])
  have one: "\<forall>start'. start' sch fb (fallback_options transf (valuePath opts))
                    = start sch fb (fallback_options transf (valuePath opts))
            \<longrightarrow> parseReferenceExtension fmt start' sch v opts = parseReferenceExtension fmt start sch v opts"
    by (simp add: ext body)
  have two: "\<forall>e. start sch fb (fallback_options transf (valuePath opts)) = Raises e
            \<longrightarrow> parseReferenceExtension fmt start sch v opts = Extension (Raises e)"
    by (simp add: ext body)
  have three: "parseReferenceExtension fmt (parser_start fmt plain) sch v opts
                  = Extension (Yields (JObj [(GET_symbol, JArr [JStr r, chain n r' b1])])
                                (Returns (JObj [(GET_symbol, JArr [JStr r, chain n r' b2])])))"
    if "\<forall>vp'. plain sch b (fallback_options True vp') = Yields b1 (Returns b2)"
      and "\<not> isGetting b" and "b \<noteq> JUndefined" and "fb = chain n r' b" and "transf"
    for plain b b1 b2 n r'
    using parser_start_chain [of plain sch b b1 b2 fmt n r' "valuePath opts"] that
      body [of "parser_start fmt plain"]
    by (simp add: ext)
  have four: "parseReferenceExtension fmt (parser_start fmt plain) sch v opts
                  = Extension (Returns (JObj [(GET_symbol, JArr [JStr r, chain n r' b1])]))"
    if "\<forall>vp'. plain sch b (fallback_options False vp') = Returns b1"
      and "\<not> isGetting b" and "b \<noteq> JUndefined" and "fb = chain n r' b" and "\<not> transf"
    for plain b b1 n r'
    using parser_start_chain_untransformed [of plain sch b b1 fmt n r' "valuePath opts"] that
      body [of "parser_start fmt plain"]
    by (simp add: ext)
  have five: "parseReferenceExtension fmt start sch v opts
                  = Extension (Returns (JObj [(GET_symbol, JArr [JStr r, v1])]))"
    if "gen_next (start sch fb (fallback_options transf (valuePath opts))) = (Inr (v1, d1), g1)"
      and "\<not> transf" for v1 d1 g1
    using that body [of start] by (simp add: ext)
  have six: "parseReferenceExtension fmt start sch v opts
                  = Extension (Yields (JObj [(GET_symbol, JArr [JStr r, v1])])
                                (Returns (JObj [(GET_symbol, JArr [JStr r, v2])])))"
    if "gen_next (start sch fb (fallback_options transf (valuePath opts))) = (Inr (v1, d1), g1)"
      and "gen_next g1 = (Inr (v2, d2), g2)" and "transf" for v1 d1 g1 v2 d2 g2
    using that body [of start] by (simp add: ext)
  have seven: "parseReferenceExtension fmt start sch v opts
                  = Extension (Yields (JObj [(GET_symbol, JArr [JStr r, v1])]) (Raises e))"
    if "gen_next (start sch fb (fallback_options transf (valuePath opts))) = (Inr (v1, d1), g1)"
      and "gen_next g1 = (Inl e, g2)" and "transf" for v1 d1 g1 e g2
    using that body [of start] by (simp add: ext)
  have three': "(\<forall>plain b b1 b2 n r'.
            (\<forall>vp'. plain sch b (fallback_options True vp') = Yields b1 (Returns b2))
            \<and> \<not> isGetting b \<and> b \<noteq> JUndefined \<and> fb = chain n r' b \<and> transf
            \<longrightarrow> parseReferenceExtension fmt (parser_start fmt plain) sch v opts
                  = Extension (Yields (JObj [(GET_symbol, JArr [JStr r, chain n r' b1])])
                                (Returns (JObj [(GET_symbol, JArr [JStr r, chain n r' b2])]))))"
    by (intro allI impI, elim conjE, (rule three; assumption))
  have four': "(\<forall>plain b b1 n r'.
            (\<forall>vp'. plain sch b (fallback_options False vp') = Returns b1)
            \<and> \<not> isGetting b \<and> b \<noteq> JUndefined \<and> fb = chain n r' b \<and> \<not> transf
            \<longrightarrow> parseReferenceExtension fmt (parser_start fmt plain) sch v opts
                  = Extension (Returns (JObj [(GET_symbol, JArr [JStr r, chain n r' b1])])))"
    by (intro allI impI, elim conjE, (rule four; assumption))
  have five': "(\<forall>v1 d1 g1.
            gen_next (start sch fb (fallback_options transf (valuePath opts))) = (Inr (v1, d1), g1)
            \<and> \<not> transf
            \<longrightarrow> parseReferenceExtension fmt start sch v opts
                  = Extension (Returns (JObj [(GET_symbol, JArr [JStr r, v1])])))"
    by (intro allI impI, elim conjE, (rule five; assumption))
  have six': "(\<forall>v1 d1 g1 v2 d2 g2.
            gen_next (start sch fb (fallback_options transf (valuePath opts))) = (Inr (v1, d1), g1)
            \<and> gen_next g1 = (Inr (v2, d2), g2) \<and> transf
            \<longrightarrow> parseReferenceExtension fmt start sch v opts
                  = Extension (Yields (JObj [(GET_symbol, JArr [JStr r, v1])])
                                (Returns (JObj [(GET_symbol, JArr [JStr r, v2])]))))"
    by (intro allI impI, elim conjE, (rule six; assumption))
  have seven': "(\<forall>v1 d1 g1 e g2.
            gen_next (start sch fb (fallback_options transf (valuePath opts))) = (Inr (v1, d1), g1)
            \<and> gen_next g1 = (Inl e, g2) \<and> transf
            \<longrightarrow> parseReferenceExtension fmt start sch v opts
                  = Extension (Yields (JObj [(GET_symbol, JArr [JStr r, v1])]) (Raises e)))"
    by (intro allI impI, elim conjE, (rule seven; assumption))
  show ?thesis
    by (intro conjI one two three' four' five' six' seven')
qed

theorem fallback_parsed_recursively_witness:
  "isGetting (JObj [(GET_symbol, JArr [JStr ''a'', chain 3 ''b'' (JStr ''dflt'')])])
   \<and> chain 3 ''b'' (JStr ''dflt'') \<noteq> JUndefined
   \<and> parseReferenceExtension (\<lambda>p. None) (parser_start (\<lambda>p. None) (\<lambda>s x o'. Yields x (Returns x)))
      (Schema None StringS)
      (JObj [(GET_symbol, JArr [JStr ''a'', chain 3 ''b'' (JStr ''dflt'')])])
      \<lparr>transform = None, valuePath = None\<rparr>
   = Extension (Yields (JObj [(GET_symbol, JArr [JStr ''a'', chain 3 ''b'' (JStr ''dflt'')])])
                 (Returns (JObj [(GET_symbol, JArr [JStr ''a'', chain 3 ''b'' (JStr ''dflt'')])])))
   \<and> parseReferenceExtension (\<lambda>p. None) (parser_start (\<lambda>p. None) (\<lambda>s x o'. Returns x))
      (Schema None StringS)
      (JObj [(GET_symbol, JArr [JStr ''a'', chain 2 ''b'' (JStr ''dflt'')])])
      \<lparr>transform = Some False, valuePath = None\<rparr>
   = Extension (Returns (JObj [(GET_symbol, JArr [JStr ''a'', chain 2 ''b'' (JStr ''dflt'')])]))
   \<and> parseReferenceExtension (\<lambda>p. None) (\<lambda>s x o'. Returns (JStr ''parsed''))
      (Schema None StringS)
      (JObj [(GET_symbol, JArr [JStr ''a'', JStr ''dflt''])])
      \<lparr>transform = Some False, valuePath = None\<rparr>
   = Extension (Returns (JObj [(GET_symbol, JArr [JStr ''a'', JStr ''parsed''])]))"
proof -
  have d: "chain n ''b'' (JStr ''dflt'') \<noteq> JUndefined" for n
    by (rule chain_defined) simp
  have a: "parseReferenceExtension (\<lambda>p. None) (parser_start (\<lambda>p. None) (\<lambda>s x o'. Yields x (Returns x)))
      (Schema None StringS)
      (JObj [(GET_symbol, JArr [JStr ''a'', chain 3 ''b'' (JStr ''dflt'')])])
      \<lparr>transform = None, valuePath = None\<rparr>
   = Extension (Yields (JObj [(GET_symbol, JArr [JStr ''a'', chain 3 ''b'' (JStr ''dflt'')])])
                 (Returns (JObj [(GET_symbol, JArr [JStr ''a'', chain 3 ''b'' (JStr ''dflt'')])])))"
    using d [of 3]
      fallback_parsed_recursively [of "JObj [(GET_symbol, JArr [JStr ''a'', chain 3 ''b'' (JStr ''dflt'')])]"
        "[JStr ''a'', chain 3 ''b'' (JStr ''dflt'')]" "''a''" "chain 3 ''b'' (JStr ''dflt'')" True
        "\<lparr>transform = None, valuePath = None\<rparr>" "Schema None StringS"
        "\<lambda>s x o'. Finished" "\<lambda>p. None",
        THEN conjunct2, THEN conjunct2, THEN conjunct1, rule_format,
        of "\<lambda>s x o'. Yields x (Returns x)" "JStr ''dflt''" "JStr ''dflt''" "JStr ''dflt''" 3 "''b''"]
    by simp
  have b: "parseReferenceExtension (\<lambda>p. None) (parser_start (\<lambda>p. None) (\<lambda>s x o'. Returns x))
      (Schema None StringS)
      (JObj [(GET_symbol, JArr [JStr ''a'', chain 2 ''b'' (JStr ''dflt'')])])
      \<lparr>transform = Some False, valuePath = None\<rparr>
   = Extension (Returns (JObj [(GET_symbol, JArr [JStr ''a'', chain 2 ''b'' (JStr ''dflt'')])]))"
    using d [of 2]
      fallback_parsed_recursively [of "JObj [(GET_symbol, JArr [JStr ''a'', chain 2 ''b'' (JStr ''dflt'')])]"
        "[JStr ''a'', chain 2 ''b'' (JStr ''dflt'')]" "''a''" "chain 2 ''b'' (JStr ''dflt'')" False
        "\<lparr>transform = Some False, valuePath = None\<rparr>" "Schema None StringS"
        "\<lambda>s x o'. Finished" "\<lambda>p. None",
        THEN conjunct2, THEN conjunct2, THEN conjunct2, THEN conjunct1, rule_format,
        of "\<lambda>s x o'. Returns x" "JStr ''dflt''" "JStr ''dflt''" 2 "''b''"]
    by simp
  have c: "parseReferenceExtension (\<lambda>p. None) (\<lambda>s x o'. Returns (JStr ''parsed''))
      (Schema None StringS)
      (JObj [(GET_symbol, JArr [JStr ''a'', JStr ''dflt''])])
      \<lparr>transform = Some False, valuePath = None\<rparr>
   = Extension (Returns (JObj [(GET_symbol, JArr [JStr ''a'', JStr ''parsed''])]))"
    using fallback_parsed_recursively [of "JObj [(GET_symbol, JArr [JStr ''a'', JStr ''dflt''])]"
        "[JStr ''a'', JStr ''dflt'']" "''a''" "JStr ''dflt''" False
        "\<lparr>transform = Some False, valuePath = None\<rparr>" "Schema None StringS"
        "\<lambda>s x o'. Returns (JStr ''parsed'')" "\<lambda>p. None",
        THEN conjunct2, THEN conjunct2, THEN conjunct2, THEN conjunct2, THEN conjunct1, rule_format,
        of "JStr ''parsed''" True Finished]
    by simp
  from a b c d [of 3] show ?thesis by simp
qed

text \<open>
  The error of a construct that the code rejects is raised lazily.  For every value with a
  defined \<open>$GET\<close> entry the call itself returns, with \<open>isExtension: true\<close> and a
  generator.  When the \<open>$GET\<close> entry is no array, or its first element is no string, the
  \<open>InvalidAttributeInput\<close> error is what the first advancement of that generator
  raises, so it is observed only by a caller that advances the generator.
\<close>

lemma rejected_construct_raises_lazily:
  assumes "isGetting v" and "get_prop v GET_symbol \<noteq> JUndefined"
  shows "isExtension (parseReferenceExtension fmt start sch v opts)
       \<and> (\<exists>g. parseReferenceExtension fmt start sch v opts = Extension g)
       \<and> (\<not> isArray (get_prop v GET_symbol) \<or> \<not> isString (elem (get_prop v GET_symbol) 0)
            \<longrightarrow> (\<exists>e. parseReferenceExtension fmt start sch v opts = Extension (Raises e)
                      \<and> gen_next (extensionParser (parseReferenceExtension fmt start sch v opts))
                          = (Inl e, Finished)
                      \<and> code e = ''parsing.invalidAttributeInput''))"
  using assms by (auto simp: parseReferenceExtension_def extensionParser_body_def Let_def)

text \<open>
  C9.  The specification has every malformed reference construct answered with
  \<open>isExtension: true\<close> and its \<open>InvalidAttributeInput\<close> error raised when the generator
  is first advanced; a \<open>$GET\<close> value of more than two elements is malformed, by the
  specification and by the message of the code's own error.  On the three-element array
  \<open>['ref', 'dflt', 'extra']\<close>, with a value parser that accepts the fallback, the call
  returns \<open>isExtension: true\<close>, but the first advancement yields
  \<open>{ [$GET]: ['ref', 'dflt'] }\<close> and the second returns it: the error is raised at no
  advancement, because the code never tests the length of the array.
\<close>

theorem three_element_reference_never_raises:
  "isExtension (parseReferenceExtension (\<lambda>p. Some ''attr.$GET'') (\<lambda>s x o'. Yields x (Returns x))
      (Schema None StringS) (JObj [(GET_symbol, JArr [JStr ''ref'', JStr ''dflt'', JStr ''extra''])])
      \<lparr>transform = Some True, valuePath = Some [PKey ''attr'']\<rparr>)
   \<and> gen_next (extensionParser (parseReferenceExtension (\<lambda>p. Some ''attr.$GET'')
        (\<lambda>s x o'. Yields x (Returns x)) (Schema None StringS)
        (JObj [(GET_symbol, JArr [JStr ''ref'', JStr ''dflt'', JStr ''extra''])])
        \<lparr>transform = Some True, valuePath = Some [PKey ''attr'']\<rparr>))
     = (Inr (JObj [(GET_symbol, JArr [JStr ''ref'', JStr ''dflt''])], False),
        Returns (JObj [(GET_symbol, JArr [JStr ''ref'', JStr ''dflt''])]))
   \<and> gen_next (Returns (JObj [(GET_symbol, JArr [JStr ''ref'', JStr ''dflt''])]))
     = (Inr (JObj [(GET_symbol, JArr [JStr ''ref'', JStr ''dflt''])], True), Finished)"
  by (simp add: parseReferenceExtension_def extensionParser_body_def Let_def)

theorem three_element_reference_never_raises_witness:
  "\<forall>e. extensionParser (parseReferenceExtension (\<lambda>p. Some ''attr.$GET'')
        (\<lambda>s x o'. Yields x (Returns x)) (Schema None StringS)
        (JObj [(GET_symbol, JArr [JStr ''ref'', JStr ''dflt'', JStr ''extra''])])
        \<lparr>transform = Some True, valuePath = Some [PKey ''attr'']\<rparr>) \<noteq> Raises e"
proof
  fix e
  show "extensionParser (parseReferenceExtension (\<lambda>p. Some ''attr.$GET'')
        (\<lambda>s x o'. Yields x (Returns x)) (Schema None StringS)
        (JObj [(GET_symbol, JArr [JStr ''ref'', JStr ''dflt'', JStr ''extra''])])
        \<lparr>transform = Some True, valuePath = Some [PKey ''attr'']\<rparr>) \<noteq> Raises e"
    using three_element_reference_never_raises by (cases e) auto
qed

section \<open>Properties of the condition compiler\<close>

text \<open>The numerals, the tokens and the tables.\<close>

lemma show_nat_small:
  "show_nat (Suc 0) = ''1''" "show_nat (Suc (Suc 0)) = ''2''" "show_nat 4 = ''4''"
  by code_simp+

lemma digit_char_not_underscore: "d < 10 \<Longrightarrow> digit_char d \<noteq> CHR ''_''"
proof
  assume d: "d < 10" and eq: "digit_char d = CHR ''_''"
  have "(of_char (digit_char d) :: nat) = 48 + d"
    using d by (simp add: digit_char_def)
  moreover have "(of_char (CHR ''_'') :: nat) = 95" by simp
  ultimately show False using eq d by simp
qed

lemma show_nat_no_underscore: "CHR ''_'' \<notin> set (show_nat n)"
proof (induction n rule: show_nat.induct)
  case (1 n)
  show ?case
  proof (cases "n < 10")
    case True
    then show ?thesis
      using digit_char_not_underscore [of n] by (auto simp: show_nat.simps [of n])
  next
    case False
    then show ?thesis
      using "1.IH" digit_char_not_underscore [of "n mod 10"] by (auto simp: show_nat.simps [of n])
  qed
qed

lemma split_at_last:
  assumes "xs @ c # ds = ys @ c # es" and "c \<notin> set ds" and "c \<notin> set es"
  shows "xs = ys"
proof -
  have "rev ds @ c # rev xs = rev es @ c # rev ys"
    using arg_cong [OF assms(1), of rev] by simp
  moreover have "takeWhile (\<lambda>x. x \<noteq> c) (rev ds @ c # rev xs) = rev ds"
    using assms(2) by (subst takeWhile_append2) auto
  moreover have "takeWhile (\<lambda>x. x \<noteq> c) (rev es @ c # rev ys) = rev es"
    using assms(3) by (subst takeWhile_append2) auto
  ultimately have "ds = es" by simp
  with assms(1) show ?thesis by simp
qed

lemma name_token_eid: "name_token e i = name_token e' j \<Longrightarrow> e = e'"
  unfolding name_token_def
  using split_at_last [of e "CHR ''_''" "show_nat i" e' "show_nat j"] show_nat_no_underscore
  by simp

lemma value_token_eid: "value_token e i = value_token e' j \<Longrightarrow> e = e'"
  unfolding value_token_def
  using split_at_last [of e "CHR ''_''" "show_nat i" e' "show_nat j"] show_nat_no_underscore
  by simp

lemma name_value_token: "name_token e i \<noteq> value_token e' j"
  by (simp add: name_token_def value_token_def)

lemma ordinal_keys_empty: "ordinal_keys tok []"
  by (simp add: ordinal_keys_def)

lemma ordinal_keys_snoc:
  "ordinal_keys tok tbl \<Longrightarrow> ordinal_keys tok (tbl @ [(tok (Suc (length tbl)), x)])"
  by (simp add: ordinal_keys_def)

lemma allocateName_keys:
  "ordinal_keys (name_token eid) names \<Longrightarrow> ordinal_keys (name_token eid) (snd (allocateName eid names s))"
  by (auto simp: allocateName_def Let_def ordinal_keys_snoc split: option.splits)

lemma build_path_keys:
  "ordinal_keys (name_token eid) names \<Longrightarrow>
   ordinal_keys (name_token eid) (snd (build_path eid parts names acc))"
proof (induction eid parts names acc rule: build_path.induct)
  case (2 eid s parts names acc)
  then show ?case
    using allocateName_keys [of eid names s] by (auto split: prod.splits)
qed simp_all

lemma render_keys: "ordinal_keys (value_token eid) (snd (render eid p op))"
  by (cases op) (simp_all add: allocateValue_def ordinal_keys_def Let_def)

lemma parse_InrD:
  assumes "parse kinds validate root p op opts = Inr r"
    and "eid = (case expressionId opts of Some i \<Rightarrow> i | None \<Rightarrow> '''')"
  obtains segs node parts op' docPath where
    "tokenize p = Inr segs"
    "resolve (check_terminal kinds validate opts op) root segs = Inr (node, parts, op')"
    "build_path eid parts [] '''' = (docPath, ExpressionAttributeNames r)"
    "render eid docPath op' = (ConditionExpression r, ExpressionAttributeValues r)"
  using assms
  by (auto simp: parse_def Let_def split: sum.splits compile_error.splits prod.splits)

lemma parse_keys:
  assumes "parse kinds validate root p op opts = Inr r"
    and "eid = (case expressionId opts of Some i \<Rightarrow> i | None \<Rightarrow> '''')"
  shows "ordinal_keys (name_token eid) (ExpressionAttributeNames r)
       \<and> ordinal_keys (value_token eid) (ExpressionAttributeValues r)"
proof -
  from assms obtain parts op' docPath where
    b: "build_path eid parts [] '''' = (docPath, ExpressionAttributeNames r)" and
    r: "render eid docPath op' = (ConditionExpression r, ExpressionAttributeValues r)"
    by (rule parse_InrD)
  show ?thesis
    using build_path_keys [OF ordinal_keys_empty, of eid parts "''''"] render_keys [of eid docPath op']
    by (simp add: b r)
qed

lemma ordinal_keys_tokens:
  "ordinal_keys tok tbl \<Longrightarrow> t \<in> fst ` set tbl \<Longrightarrow> \<exists>i. t = tok i"
  unfolding ordinal_keys_def
  by (metis (no_types, lifting) imageE set_map)







lemma allocateName_names:
  "snd ` set (snd (allocateName eid names s)) \<subseteq> insert s (snd ` set names)"
proof (cases "find (\<lambda>entry. snd entry = s) names")
  case None
  then show ?thesis by (simp add: allocateName_def Let_def)
next
  case (Some e)
  then show ?thesis by (auto simp add: allocateName_def)
qed

lemma build_path_names:
  "snd ` set (snd (build_path eid parts names acc)) \<subseteq> snd ` set names \<union> {s. NamePart s \<in> set parts}"
proof (induction eid parts names acc rule: build_path.induct)
  case (1 eid names acc)
  show ?case by simp
next
  case (2 eid s parts names acc)
  obtain t names' where a: "allocateName eid names s = (t, names')"
    by (cases "allocateName eid names s")
  have 1: "snd ` set names' \<subseteq> insert s (snd ` set names)"
    using allocateName_names [of eid names s] a by simp
  have 2: "snd ` set (snd (build_path eid (NamePart s # parts) names acc))
          \<subseteq> snd ` set names' \<union> {x. NamePart x \<in> set parts}"
    using "2.IH" [OF a [symmetric]] a by simp
  have 3: "{x. NamePart x \<in> set (NamePart s # parts)} = insert s {x. NamePart x \<in> set parts}"
    by auto
  show ?case
    unfolding 3 using 1 2 by blast
next
  case (3 eid i parts names acc)
  have "{s. NamePart s \<in> set (IndexPart i # parts)} = {s. NamePart s \<in> set parts}" by simp
  then show ?case using "3.IH" by simp
qed


lemma keys_tokens:
  assumes "ordinal_keys (name_token eid) ns" and "ordinal_keys (value_token eid) vs"
    and "t \<in> fst ` set ns \<union> fst ` set vs"
  shows "\<exists>i. t = name_token eid i \<or> t = value_token eid i"
  using assms ordinal_keys_tokens [of "name_token eid" ns t] ordinal_keys_tokens [of "value_token eid" vs t]
  by blast

lemma tokens_disjoint:
  assumes "ordinal_keys (name_token eid) ns" and "ordinal_keys (value_token eid) vs"
    and "ordinal_keys (name_token eid') ns'" and "ordinal_keys (value_token eid') vs'"
    and "eid' \<noteq> eid"
  shows "(fst ` set ns \<union> fst ` set vs) \<inter> (fst ` set ns' \<union> fst ` set vs') = {}"
proof (rule ccontr)
  assume "\<not> ?thesis"
  then obtain t where t: "t \<in> fst ` set ns \<union> fst ` set vs" and t': "t \<in> fst ` set ns' \<union> fst ` set vs'"
    by blast
  from keys_tokens [OF assms(1,2) t] obtain i where i: "t = name_token eid i \<or> t = value_token eid i" ..
  from keys_tokens [OF assms(3,4) t'] obtain j where j: "t = name_token eid' j \<or> t = value_token eid' j" ..
  from i j assms(5) show False
    using name_token_eid [of eid i eid' j] value_token_eid [of eid i eid' j]
      name_value_token [of eid i eid' j] name_value_token [of eid' j eid i]
    by metis
qed

text \<open>
  C6.  Over the schema of the test file, whose \<open>listed\<close> is a list of maps saved as
  \<open>_l\<close> and whose inner \<open>savedAs\<close> is saved as \<open>_s\<close>, the condition
  \<open>{ attr: 'listed[4].savedAs', beginsWith: 'foo' }\<close> compiles to exactly
  \<open>begins_with(#c_1[4].#c_2, :c_1)\<close> with names \<open>#c_1\<close> for \<open>_l\<close> and \<open>#c_2\<close> for
  \<open>_s\<close> and the value \<open>:c_1\<close> for \<open>'foo'\<close>, whenever the collaborators accept a string
  operand for \<open>beginsWith\<close> at a string node.  The index is a suffix of the preceding
  name token; in general the name table of a compiled path holds storage names only, an
  index has no entry.
\<close>

theorem listed_index_inlined:
  assumes "KString \<in> set (kinds (BeginsWith (JStr ''foo'')))"
    and "validate (Schema (Some ''_s'') StringS) (JStr ''foo'') opts = Some (JStr ''foo'')"
    and "expressionId opts = None"
  shows "parse kinds validate schemaWithSavedAs ''listed[4].savedAs'' (BeginsWith (JStr ''foo'')) opts
           = Inr \<lparr>ConditionExpression = ''begins_with(#c_1[4].#c_2, :c_1)'',
                  ExpressionAttributeNames = [(''#c_1'', ''_l''), (''#c_2'', ''_s'')],
                  ExpressionAttributeValues = [('':c_1'', JStr ''foo'')]\<rparr>
       \<and> (\<forall>eid parts acc.
             snd ` set (snd (build_path eid parts [] acc)) \<subseteq> {s. NamePart s \<in> set parts})"
proof -
  have tok: "tokenize ''listed[4].savedAs'' = Inr [FieldSeg ''listed'', IndexSeg 4, FieldSeg ''savedAs'']"
    by (simp add: tokenize_def is_digit_def digits_value_def digit_value_def)
  have "parse kinds validate schemaWithSavedAs ''listed[4].savedAs'' (BeginsWith (JStr ''foo'')) opts
           = Inr \<lparr>ConditionExpression = ''begins_with(#c_1[4].#c_2, :c_1)'',
                  ExpressionAttributeNames = [(''#c_1'', ''_l''), (''#c_2'', ''_s'')],
                  ExpressionAttributeValues = [('':c_1'', JStr ''foo'')]\<rparr>"
    using assms
    by (simp add: parse_def tok schemaWithSavedAs_def check_terminal_def allocateName_def
        allocateValue_def name_token_def value_token_def show_nat_small Let_def)
  moreover have "snd ` set (snd (build_path eid parts [] acc)) \<subseteq> {s. NamePart s \<in> set parts}"
    for eid parts acc
    using build_path_names [of eid parts "[]" acc] by simp
  ultimately show ?thesis by blast
qed

theorem listed_index_inlined_witness:
  "parse (\<lambda>op. [KString, KBinary]) (\<lambda>node v opts. Some v) schemaWithSavedAs ''listed[4].savedAs''
      (BeginsWith (JStr ''foo'')) \<lparr>expressionId = None, c_transform = None\<rparr>
   = Inr \<lparr>ConditionExpression = ''begins_with(#c_1[4].#c_2, :c_1)'',
          ExpressionAttributeNames = [(''#c_1'', ''_l''), (''#c_2'', ''_s'')],
          ExpressionAttributeValues = [('':c_1'', JStr ''foo'')]\<rparr>"
  using listed_index_inlined [of "\<lambda>op. [KString, KBinary]" "\<lambda>node v opts. Some v"
      "\<lparr>expressionId = None, c_transform = None\<rparr>"]
  by simp

text \<open>
  C7.  In the result of every successful compile call the keys of the name table are the
  name tokens of the ordinals 1, 2, ... in insertion order, and the keys of the value table
  the value tokens of the ordinals 1, 2, ..., all under the call's expression id (the empty
  string when none is given).  Two successful calls whose expression ids differ have no token
  in common.  With expression id \<open>1\<close> the root \<open>savedAs\<close>/\<open>beginsWith\<close> scenario
  yields \<open>#c1_1\<close> and \<open>:c1_1\<close>, the id standing between the \<open>c\<close> and the underscore.
\<close>

theorem placeholder_ordinals:
  assumes "parse kinds validate root p op opts = Inr r"
    and "eid = (case expressionId opts of Some i \<Rightarrow> i | None \<Rightarrow> '''')"
  shows "map fst (ExpressionAttributeNames r)
           = map (name_token eid) [1..<Suc (length (ExpressionAttributeNames r))]
       \<and> map fst (ExpressionAttributeValues r)
           = map (value_token eid) [1..<Suc (length (ExpressionAttributeValues r))]
       \<and> (\<forall>kinds' validate' root' p' op' opts' r'.
             parse kinds' validate' root' p' op' opts' = Inr r'
             \<and> (case expressionId opts' of Some i \<Rightarrow> i | None \<Rightarrow> '''') \<noteq> eid
             \<longrightarrow> (fst ` set (ExpressionAttributeNames r) \<union> fst ` set (ExpressionAttributeValues r))
                   \<inter> (fst ` set (ExpressionAttributeNames r') \<union> fst ` set (ExpressionAttributeValues r')) = {})
       \<and> (\<forall>kinds1 validate1.
             KString \<in> set (kinds1 (BeginsWith (JStr ''foo'')))
             \<and> validate1 (Schema (Some ''_s'') StringS) (JStr ''foo'')
                   \<lparr>expressionId = Some ''1'', c_transform = None\<rparr> = Some (JStr ''foo'')
             \<longrightarrow> parse kinds1 validate1 schemaWithSavedAs ''savedAs'' (BeginsWith (JStr ''foo''))
                     \<lparr>expressionId = Some ''1'', c_transform = None\<rparr>
                   = Inr \<lparr>ConditionExpression = ''begins_with(#c1_1, :c1_1)'',
                          ExpressionAttributeNames = [(''#c1_1'', ''_s'')],
                          ExpressionAttributeValues = [('':c1_1'', JStr ''foo'')]\<rparr>)"
proof -
  have k: "ordinal_keys (name_token eid) (ExpressionAttributeNames r)"
          "ordinal_keys (value_token eid) (ExpressionAttributeValues r)"
    using parse_keys [OF assms] by simp_all
  have one: "map fst (ExpressionAttributeNames r)
           = map (name_token eid) [1..<Suc (length (ExpressionAttributeNames r))]"
    using k(1) by (simp only: ordinal_keys_def)
  have two: "map fst (ExpressionAttributeValues r)
           = map (value_token eid) [1..<Suc (length (ExpressionAttributeValues r))]"
    using k(2) by (simp only: ordinal_keys_def)
  have three: "(fst ` set (ExpressionAttributeNames r) \<union> fst ` set (ExpressionAttributeValues r))
                   \<inter> (fst ` set (ExpressionAttributeNames r') \<union> fst ` set (ExpressionAttributeValues r')) = {}"
    if "parse kinds' validate' root' p' op' opts' = Inr r'"
      and "(case expressionId opts' of Some i \<Rightarrow> i | None \<Rightarrow> '''') \<noteq> eid"
    for kinds' validate' root' p' op' opts' r'
    using tokens_disjoint [OF k] parse_keys [OF that(1) refl] that(2) by blast
  have tok: "tokenize ''savedAs'' = Inr [FieldSeg ''savedAs'']"
    by (simp add: tokenize_def)
  have four: "parse kinds1 validate1 schemaWithSavedAs ''savedAs'' (BeginsWith (JStr ''foo''))
                     \<lparr>expressionId = Some ''1'', c_transform = None\<rparr>
                   = Inr \<lparr>ConditionExpression = ''begins_with(#c1_1, :c1_1)'',
                          ExpressionAttributeNames = [(''#c1_1'', ''_s'')],
                          ExpressionAttributeValues = [('':c1_1'', JStr ''foo'')]\<rparr>"
    if "KString \<in> set (kinds1 (BeginsWith (JStr ''foo'')))"
      and "validate1 (Schema (Some ''_s'') StringS) (JStr ''foo'')
                   \<lparr>expressionId = Some ''1'', c_transform = None\<rparr> = Some (JStr ''foo'')"
    for kinds1 validate1
    using that
    by (simp add: parse_def tok schemaWithSavedAs_def check_terminal_def allocateName_def
        allocateValue_def name_token_def value_token_def show_nat_small Let_def)
  from one two three four show ?thesis by blast
qed

theorem placeholder_ordinals_witness:
  "parse (\<lambda>op. [KString]) (\<lambda>node v opts. Some v) schemaWithSavedAs ''deep.savedAs''
      (BeginsWith (JStr ''foo'')) \<lparr>expressionId = Some ''7'', c_transform = None\<rparr>
    = Inr \<lparr>ConditionExpression = ''begins_with(#c7_1.#c7_2, :c7_1)'',
           ExpressionAttributeNames = [(''#c7_1'', ''_n''), (''#c7_2'', ''_s'')],
           ExpressionAttributeValues = [('':c7_1'', JStr ''foo'')]\<rparr>
   \<and> [''#c7_1'', ''#c7_2''] = map (name_token ''7'') [1..<3]
   \<and> ['':c7_1''] = map (value_token ''7'') [1..<2]
   \<and> parse (\<lambda>op. [KString]) (\<lambda>node v opts. Some v) schemaWithSavedAs ''savedAs''
        (BeginsWith (JStr ''foo'')) \<lparr>expressionId = Some ''1'', c_transform = None\<rparr>
      = Inr \<lparr>ConditionExpression = ''begins_with(#c1_1, :c1_1)'',
             ExpressionAttributeNames = [(''#c1_1'', ''_s'')],
             ExpressionAttributeValues = [('':c1_1'', JStr ''foo'')]\<rparr>"
proof -
  have tok: "tokenize ''deep.savedAs'' = Inr [FieldSeg ''deep'', FieldSeg ''savedAs'']"
    by (simp add: tokenize_def)
  have p: "parse (\<lambda>op. [KString]) (\<lambda>node v opts. Some v) schemaWithSavedAs ''deep.savedAs''
      (BeginsWith (JStr ''foo'')) \<lparr>expressionId = Some ''7'', c_transform = None\<rparr>
    = Inr \<lparr>ConditionExpression = ''begins_with(#c7_1.#c7_2, :c7_1)'',
           ExpressionAttributeNames = [(''#c7_1'', ''_n''), (''#c7_2'', ''_s'')],
           ExpressionAttributeValues = [('':c7_1'', JStr ''foo'')]\<rparr>"
    by (simp add: parse_def tok schemaWithSavedAs_def check_terminal_def allocateName_def
        allocateValue_def name_token_def value_token_def show_nat_small Let_def)
  show ?thesis
    using placeholder_ordinals [OF p, of "''7''"] p
    by (simp add: upt_rec)
qed







section \<open>Properties of the lighteners\<close>

text \<open>
  C10.  \<open>light\<close>, \<open>lightTuple\<close> and \<open>lightObj\<close> are identities at run time: each
  returns the schema, the tuple of schemas or the object of schemas it was given.
\<close>

theorem light_identity:
  "light sch = sch \<and> lightTuple schemas = schemas \<and> lightObj attrs = attrs"
  by (simp add: light_def lightTuple_def lightObj_def)

end
